theory Spec2Isabelle
  imports Complex_Main "HOL-Library.Word" "HOL-Library.Multiset"
begin

unbundle bit_operations_syntax

section \<open>JavaScript values used by src/index.js\<close>

text \<open>
  A JavaScript number is modelled as a real number or one of the three special values of
  IEEE arithmetic. Finite arithmetic is exact here: rounding, overflow to an infinity and
  the sign of zero are not modelled. What the program relies on is kept: \<open>NaN\<close> is
  absorbing, every comparison with \<open>NaN\<close> is false, and \<open>undefined\<close> read as a number
  is \<open>NaN\<close>.
\<close>

datatype jsnum = Fin real | PInf | NInf | NaN

fun jneg :: "jsnum \<Rightarrow> jsnum" where
  "jneg (Fin a) = Fin (- a)"
| "jneg PInf = NInf"
| "jneg NInf = PInf"
| "jneg NaN = NaN"

fun jadd :: "jsnum \<Rightarrow> jsnum \<Rightarrow> jsnum" where
  "jadd NaN _ = NaN"
| "jadd _ NaN = NaN"
| "jadd (Fin a) (Fin b) = Fin (a + b)"
| "jadd PInf NInf = NaN"
| "jadd NInf PInf = NaN"
| "jadd PInf _ = PInf"
| "jadd _ PInf = PInf"
| "jadd NInf _ = NInf"
| "jadd _ NInf = NInf"

definition jsub :: "jsnum \<Rightarrow> jsnum \<Rightarrow> jsnum" where
  "jsub a b = jadd a (jneg b)"

text \<open>The sign of a number that is not \<open>NaN\<close>: \<open>-1\<close>, \<open>0\<close> or \<open>1\<close>.\<close>

fun jsgn :: "jsnum \<Rightarrow> int" where
  "jsgn (Fin a) = (if a < 0 then - 1 else if a = 0 then 0 else 1)"
| "jsgn PInf = 1"
| "jsgn NInf = - 1"
| "jsgn NaN = 0"

definition inf_of_sign :: "int \<Rightarrow> jsnum" where
  "inf_of_sign s = (if s = 0 then NaN else if s < 0 then NInf else PInf)"

fun jmul :: "jsnum \<Rightarrow> jsnum \<Rightarrow> jsnum" where
  "jmul NaN _ = NaN"
| "jmul _ NaN = NaN"
| "jmul (Fin a) (Fin b) = Fin (a * b)"
| "jmul a b = inf_of_sign (jsgn a * jsgn b)"

fun jdiv :: "jsnum \<Rightarrow> jsnum \<Rightarrow> jsnum" where
  "jdiv NaN _ = NaN"
| "jdiv _ NaN = NaN"
| "jdiv (Fin a) (Fin b) = (if b = 0 then inf_of_sign (jsgn (Fin a)) else Fin (a / b))"
| "jdiv (Fin a) _ = Fin 0"
| "jdiv a (Fin b) = inf_of_sign (jsgn a * (if b < 0 then - 1 else 1))"
| "jdiv _ _ = NaN"

fun jsqrt :: "jsnum \<Rightarrow> jsnum" where
  "jsqrt (Fin a) = (if a < 0 then NaN else Fin (sqrt a))"
| "jsqrt PInf = PInf"
| "jsqrt NInf = NaN"
| "jsqrt NaN = NaN"

text \<open>\<open>a > b\<close> and \<open>a >= b\<close> of JavaScript.\<close>

fun jgt :: "jsnum \<Rightarrow> jsnum \<Rightarrow> bool" where
  "jgt NaN _ = False"
| "jgt _ NaN = False"
| "jgt (Fin a) (Fin b) = (a > b)"
| "jgt PInf PInf = False"
| "jgt PInf _ = True"
| "jgt NInf _ = False"
| "jgt (Fin a) NInf = True"
| "jgt (Fin a) PInf = False"

fun jge :: "jsnum \<Rightarrow> jsnum \<Rightarrow> bool" where
  "jge NaN _ = False"
| "jge _ NaN = False"
| "jge a b = (a = b \<or> jgt a b)"

text \<open>
  The values that occur as fields of a record: a dense vector is a plain array of numbers,
  a packed vector a \<open>BigUint64Array\<close>. An object is a finite map from property names to
  values; the spread \<open>{...a, ...b}\<close> is \<open>a ++ b\<close>.
\<close>

datatype jsval =
    VUndefined
  | VNull
  | VBool bool
  | VNum jsnum
  | VStr string
  | VArr "jsnum list"
  | VBigU64 "64 word list"

type_synonym jsobj = "string \<rightharpoonup> jsval"

text \<open>Reading a property: an absent property reads as \<open>undefined\<close>.\<close>

definition get_prop :: "jsobj \<Rightarrow> string \<Rightarrow> jsval" where
  "get_prop obj name = (case obj name of None \<Rightarrow> VUndefined | Some v \<Rightarrow> v)"

text \<open>\<open>xs[i]\<close> used as an operand of arithmetic: out of range it is \<open>undefined\<close>, that is \<open>NaN\<close>.\<close>

definition num_at :: "jsnum list \<Rightarrow> int \<Rightarrow> jsnum" where
  "num_at xs i = (if 0 \<le> i \<and> i < int (length xs) then xs ! nat i else NaN)"

text \<open>
  \<open>Array.prototype.sort(cmp)\<close>: a stable sort; \<open>x\<close> stays before \<open>y\<close> unless
  \<open>cmp(x, y) > 0\<close> (a \<open>NaN\<close> from the comparator counts as \<open>0\<close>). For a comparator that
  is not a consistent order (which \<open>a - b\<close> is not, once \<open>NaN\<close> occurs among the values)
  the language leaves the order to the implementation; this insertion sort is then one
  admissible outcome.
\<close>

fun sort_insert :: "('a \<Rightarrow> 'a \<Rightarrow> jsnum) \<Rightarrow> 'a \<Rightarrow> 'a list \<Rightarrow> 'a list" where
  "sort_insert cmp x [] = [x]"
| "sort_insert cmp x (y # ys) =
     (if jgt (cmp x y) (Fin 0) then y # sort_insert cmp x ys else x # y # ys)"

fun array_sort :: "('a \<Rightarrow> 'a \<Rightarrow> jsnum) \<Rightarrow> 'a list \<Rightarrow> 'a list" where
  "array_sort cmp [] = []"
| "array_sort cmp (x # xs) = sort_insert cmp x (array_sort cmp xs)"

section \<open>Quantizer\<close>

text \<open>
  \<open>binarizeVector(vector, threshold = null)\<close>. The bits are the numbers \<open>1\<close> and \<open>0\<close>,
  kept as naturals.
\<close>

definition binarizeVector :: "jsnum list \<Rightarrow> jsnum option \<Rightarrow> nat list" where
  "binarizeVector vector threshold =
     (let t = (case threshold of
                 Some t \<Rightarrow> t
               | None \<Rightarrow>
                   (let sorted = array_sort (\<lambda>a b. jsub a b) vector;
                        mid = int (length sorted) div 2
                    in if length sorted mod 2 = 0
                       then jdiv (jadd (num_at sorted (mid - 1)) (num_at sorted mid)) (Fin 2)
                       else num_at sorted mid))
      in map (\<lambda>val. if jge val t then 1 else 0) vector)"

text \<open>
  The packing loop of \<open>insertBinary\<close>, \<open>queryBinary\<close> and \<open>queryBinarySIMD\<close>: a zeroed
  \<open>BigUint64Array\<close> of \<open>Math.ceil(n / 64)\<close> words, then for \<open>i = 0, ..., n - 1\<close> the bit
  \<open>i % 64\<close> of word \<open>Math.floor(i / 64)\<close> is set when \<open>bits[i] === 1\<close>.
\<close>

definition pack_step :: "nat list \<Rightarrow> nat \<Rightarrow> 64 word list \<Rightarrow> 64 word list" where
  "pack_step bits i packed =
     (let bitIndex = i mod 64; arrayIndex = i div 64
      in if bits ! i = 1
         then packed[arrayIndex := (packed ! arrayIndex) OR push_bit bitIndex 1]
         else packed)"

definition pack :: "nat list \<Rightarrow> 64 word list" where
  "pack bits =
     fold (pack_step bits) [0..<length bits] (replicate ((length bits + 63) div 64) 0)"

text \<open>
  Modelled from the spec: \<open>unpack(packed, len)\<close>, which the source does not contain. The
  specification calls it the exact inverse of packing: bit \<open>i\<close> of the result is bit
  \<open>i mod 64\<close> of word \<open>floor(i / 64)\<close>.
\<close>

definition unpack :: "64 word list \<Rightarrow> nat \<Rightarrow> nat list" where
  "unpack packed len =
     map (\<lambda>i. if bit (packed ! (i div 64)) (i mod 64) then 1 else 0) [0..<len]"

text \<open>The median as the specification words it, over a sorted sequence.\<close>

definition median_of_sorted :: "jsnum list \<Rightarrow> jsnum" where
  "median_of_sorted s =
     (if even (length s)
      then jdiv (jadd (s ! (length s div 2 - 1)) (s ! (length s div 2))) (Fin 2)
      else s ! (length s div 2))"

text \<open>\<open>a <= b\<close> of JavaScript, the order in which \<open>sort((a, b) => a - b)\<close> arranges numbers.\<close>

definition jle :: "jsnum \<Rightarrow> jsnum \<Rightarrow> bool" where
  "jle a b = jge b a"

section \<open>Errors\<close>

text \<open>
  The source raises plain \<open>Error\<close> objects told apart by their message, and the platform
  raises its own exceptions. One constructor per cause: \<open>MissingIdentifier\<close> is
  \<open>'ID is required for ...'\<close>, \<open>NotFound\<close> is \<open>'Cannot update non-existent key ...'\<close>,
  \<open>LengthMismatch\<close> is \<open>'Vectors must be of the same length'\<close>, \<open>DuplicateIdentifier\<close> is
  the ConstraintError of \<open>add\<close> on an existing key, \<open>DataError\<close> the exception of the
  backend for a value that is not a valid key, \<open>WasmTrap\<close> an out-of-bounds access of the
  WebAssembly kernel. The wrappers \<open>'Error inserting data: ...'\<close> keep the cause.
\<close>

datatype error =
    MissingIdentifier
  | NotFound
  | LengthMismatch
  | DuplicateIdentifier
  | DataError
  | TypeError
  | RangeError
  | WasmTrap

text \<open>\<open>xs.map(f)\<close> where \<open>f\<close> may throw: the first exception ends the call.\<close>

fun map_result :: "('a \<Rightarrow> error + 'b) \<Rightarrow> 'a list \<Rightarrow> error + 'b list" where
  "map_result f [] = Inr []"
| "map_result f (x # xs) =
     (case f x of
        Inl e \<Rightarrow> Inl e
      | Inr y \<Rightarrow> (case map_result f xs of Inl e \<Rightarrow> Inl e | Inr ys \<Rightarrow> Inr (y # ys)))"

section \<open>SimilarityEngine\<close>

text \<open>
  What a value is to the arithmetic of \<open>cosineSimilarity\<close> and to the spread, sort and
  \<open>map\<close> of \<open>binarizeVector\<close>: a plain array of numbers is its elements. An empty
  \<open>BigUint64Array\<close> passes as an empty vector (no element is ever touched); a non-empty
  one raises a TypeError at the first mix of a BigInt with a number, and every other
  value raises a TypeError for lack of \<open>reduce\<close>, \<open>map\<close> or an iterator.
\<close>

fun dense_operand :: "jsval \<Rightarrow> jsnum list option" where
  "dense_operand (VArr xs) = Some xs"
| "dense_operand (VBigU64 ws) = (if ws = [] then Some [] else None)"
| "dense_operand _ = None"

definition dot_product :: "jsnum list \<Rightarrow> jsnum list \<Rightarrow> jsnum" where
  "dot_product vecA vecB =
     fold (\<lambda>(val, index) sum. jadd sum (jmul val (num_at vecB (int index))))
       (zip vecA [0..<length vecA]) (Fin 0)"

definition magnitude :: "jsnum list \<Rightarrow> jsnum" where
  "magnitude vec = jsqrt (fold (\<lambda>val sum. jadd sum (jmul val val)) vec (Fin 0))"

definition cosineSimilarity :: "jsval \<Rightarrow> jsval \<Rightarrow> error + jsnum" where
  "cosineSimilarity vecA vecB =
     (case (dense_operand vecA, dense_operand vecB) of
        (Some xs, Some ys) \<Rightarrow>
          Inr (jdiv (dot_product xs ys) (jmul (magnitude xs) (magnitude ys)))
      | _ \<Rightarrow> Inl TypeError)"

section \<open>DistanceEngine: the scalar path\<close>

text \<open>\<open>x.toString(2)\<close> of a BigInt that is not negative.\<close>

fun toString2 :: "nat \<Rightarrow> string" where
  "toString2 n =
     (if n < 2 then [if n = 0 then CHR ''0'' else CHR ''1'']
      else toString2 (n div 2) @ [if n mod 2 = 0 then CHR ''0'' else CHR ''1''])"

declare toString2.simps [simp del]

text \<open>\<open>xorResult.toString(2).replace(/0/g, "").length\<close>.\<close>

definition popcount_string :: "64 word \<Rightarrow> nat" where
  "popcount_string xorResult = length (filter (\<lambda>c. c \<noteq> CHR ''0'') (toString2 (unat xorResult)))"

text \<open>
  \<open>hammingDistance(vectorA, vectorB)\<close>. Its only caller passes the packed query as
  \<open>vectorA\<close>; \<open>vectorB\<close> is whatever the record holds. A plain array or a string has a
  \<open>length\<close> but no \<open>buffer\<close>, so \<open>bitsB\<close> is empty and the first XOR raises a TypeError;
  a number or a boolean has no \<open>length\<close> and fails the length test.
\<close>

definition hammingDistance :: "64 word list \<Rightarrow> jsval \<Rightarrow> error + nat" where
  "hammingDistance vectorA vectorB =
     (case vectorB of
        VBigU64 bitsB \<Rightarrow>
          if length vectorA \<noteq> length bitsB then Inl LengthMismatch
          else Inr (fold (\<lambda>(a, b) distance. distance + popcount_string (a XOR b))
                      (zip vectorA bitsB) 0)
      | VArr ys \<Rightarrow>
          if length vectorA \<noteq> length ys then Inl LengthMismatch
          else if vectorA = [] then Inr 0 else Inl TypeError
      | VStr s \<Rightarrow>
          if length vectorA \<noteq> length s then Inl LengthMismatch
          else if vectorA = [] then Inr 0 else Inl TypeError
      | VUndefined \<Rightarrow> Inl TypeError
      | VNull \<Rightarrow> Inl TypeError
      | VNum _ \<Rightarrow> Inl LengthMismatch
      | VBool _ \<Rightarrow> Inl LengthMismatch)"

section \<open>DistanceEngine: the WebAssembly path\<close>

text \<open>
  The module in \<open>wasmBase64\<close> declares one page of memory and exports it with the function
  \<open>hamming_distance(ptrA, ptrB, len)\<close>, whose body is
  \<^verbatim>\<open>
  dist = 0
  block loop
    if (len == 0) br 2
    call log(ptrA)
    dist = dist + popcnt(lane0(load(ptrA) xor load(ptrB))) + ... + popcnt(lane3(...))
    ptrA = ptrA + 16;  ptrB = ptrB + 16;  len = len - 16
    br 0
  end end
  return dist
  \<close>
  with \<open>load\<close> the 16-byte \<open>v128.load\<close>, the lanes those of \<open>i32x4.extract_lane\<close>, and all
  locals of type \<open>i32\<close> (the local \<open>dist\<close> is \<open>d\<close> below). The memory is a function
  from addresses to bytes; an access that reaches beyond the page traps. The imported
  \<open>log\<close> only prints.
\<close>

type_synonym memory = "nat \<Rightarrow> 8 word"

definition mem_size :: nat where
  "mem_size = 65536"

definition zero_memory :: memory where
  "zero_memory = (\<lambda>_. 0)"

text \<open>Little-endian bytes of a word and back.\<close>

definition u64_bytes :: "64 word \<Rightarrow> 8 word list" where
  "u64_bytes w = map (\<lambda>k. ucast (drop_bit (8 * k) w)) [0..<8]"

definition buffer_bytes :: "64 word list \<Rightarrow> 8 word list" where
  "buffer_bytes ws = concat (map u64_bytes ws)"

fun le_word :: "8 word list \<Rightarrow> 'a::len word" where
  "le_word [] = 0"
| "le_word (b # bs) = ucast b OR push_bit 8 (le_word bs)"

text \<open>\<open>wasmMemory.set(bytes, offset)\<close>: a RangeError when the bytes do not fit.\<close>

definition memory_write :: "8 word list \<Rightarrow> nat \<Rightarrow> memory \<Rightarrow> memory" where
  "memory_write bytes offset mem =
     (\<lambda>a. if offset \<le> a \<and> a < offset + length bytes then bytes ! (a - offset) else mem a)"

definition memory_set :: "8 word list \<Rightarrow> nat \<Rightarrow> memory \<Rightarrow> error + memory" where
  "memory_set bytes offset mem =
     (if offset + length bytes > mem_size then Inl RangeError
      else Inr (memory_write bytes offset mem))"

definition v128_load :: "memory \<Rightarrow> nat \<Rightarrow> 128 word" where
  "v128_load mem a = le_word (map mem [a..<a + 16])"

definition i32x4_extract_lane :: "nat \<Rightarrow> 128 word \<Rightarrow> 32 word" where
  "i32x4_extract_lane k v = ucast (drop_bit (32 * k) v)"

definition i32_popcnt :: "32 word \<Rightarrow> 32 word" where
  "i32_popcnt w = of_nat (length (filter (bit w) [0..<32]))"

function hamming_distance_loop ::
  "memory \<Rightarrow> 32 word \<Rightarrow> 32 word \<Rightarrow> 32 word \<Rightarrow> 32 word \<Rightarrow> 32 word option" where
  "hamming_distance_loop mem ptrA ptrB len d =
     (if len = 0 then Some d
      else if unat ptrA + 16 \<le> mem_size \<and> unat ptrB + 16 \<le> mem_size
      then (let x = v128_load mem (unat ptrA) XOR v128_load mem (unat ptrB)
            in hamming_distance_loop mem (ptrA + 16) (ptrB + 16) (len - 16)
                 (d + (i32_popcnt (i32x4_extract_lane 0 x)
                        + (i32_popcnt (i32x4_extract_lane 1 x)
                        + (i32_popcnt (i32x4_extract_lane 2 x)
                        + i32_popcnt (i32x4_extract_lane 3 x))))))
      else None)"
  by pat_completeness auto
termination
proof (relation "measure (\<lambda>(mem, ptrA, ptrB, len, d). mem_size + 16 - unat ptrA)")
  show "wf (measure (\<lambda>(mem, ptrA, ptrB, len, d). mem_size + 16 - unat ptrA))"
    by simp
next
  fix mem :: memory and ptrA ptrB len d :: "32 word" and x :: "128 word"
  assume "unat ptrA + 16 \<le> mem_size \<and> unat ptrB + 16 \<le> mem_size"
  then have bound: "unat ptrA + 16 \<le> 65536" by (simp add: mem_size_def)
  then have "unat (ptrA + 16) = unat ptrA + 16"
    by (simp add: unat_word_ariths)
  with bound show "((mem, ptrA + 16, ptrB + 16, len - 16,
               d + (i32_popcnt (i32x4_extract_lane 0 x)
                      + (i32_popcnt (i32x4_extract_lane 1 x)
                      + (i32_popcnt (i32x4_extract_lane 2 x)
                      + i32_popcnt (i32x4_extract_lane 3 x))))),
              (mem, ptrA, ptrB, len, d))
             \<in> measure (\<lambda>(mem, ptrA, ptrB, len, d). mem_size + 16 - unat ptrA)"
    by (simp add: mem_size_def)
qed

declare hamming_distance_loop.simps [simp del]

text \<open>The exported function; its \<open>i32\<close> result reaches JavaScript as a signed number.\<close>

definition hamming_distance :: "memory \<Rightarrow> nat \<Rightarrow> nat \<Rightarrow> nat \<Rightarrow> int option" where
  "hamming_distance mem ptrA ptrB len =
     map_option sint (hamming_distance_loop mem (of_nat ptrA) (of_nat ptrB) (of_nat len) 0)"

text \<open>
  \<open>new Uint8Array(entry.vector.buffer)\<close>: the bytes of a packed vector; a value without
  \<open>buffer\<close> gives an empty array; \<open>undefined\<close> and \<open>null\<close> raise a TypeError.
\<close>

fun vector_buffer_bytes :: "jsval \<Rightarrow> error + 8 word list" where
  "vector_buffer_bytes (VBigU64 ws) = Inr (buffer_bytes ws)"
| "vector_buffer_bytes VUndefined = Inl TypeError"
| "vector_buffer_bytes VNull = Inl TypeError"
| "vector_buffer_bytes _ = Inr []"

text \<open>
  The scoring loop of \<open>queryBinarySIMD\<close>: the query's bytes are written once at offset
  \<open>0\<close>, each record's bytes at offset \<open>16\<close> before the call
  \<open>hamming_distance(0, 16, packedQueryVector.length * 8)\<close>. The memory is shared by all
  the calls of one query.
\<close>

fun simd_distances :: "memory \<Rightarrow> nat \<Rightarrow> jsval list \<Rightarrow> error + int list" where
  "simd_distances mem n [] = Inr []"
| "simd_distances mem n (v # vs) =
     (case vector_buffer_bytes v of
        Inl e \<Rightarrow> Inl e
      | Inr dbVector \<Rightarrow>
          (case memory_set dbVector 16 mem of
             Inl e \<Rightarrow> Inl e
           | Inr mem' \<Rightarrow>
               (case hamming_distance mem' 0 16 (n * 8) of
                  None \<Rightarrow> Inl WasmTrap
                | Some distance \<Rightarrow>
                    (case simd_distances mem' n vs of
                       Inl e \<Rightarrow> Inl e
                     | Inr ds \<Rightarrow> Inr (distance # ds)))))"

definition simd_scores :: "64 word list \<Rightarrow> jsval list \<Rightarrow> error + int list" where
  "simd_scores packedQueryVector vectors =
     (case memory_set (buffer_bytes packedQueryVector) 0 zero_memory of
        Inl e \<Rightarrow> Inl e
      | Inr mem \<Rightarrow> simd_distances mem (length packedQueryVector) vectors)"

section \<open>The persistent backend\<close>

text \<open>
  The object store \<open>"vectors"\<close> of IndexedDB, created with \<open>keyPath: "id"\<close>: a list of
  records with their keys, in the order in which \<open>getAll\<close> enumerates them, which is the
  order of the keys. Numbers that are not \<open>NaN\<close>, strings, typed arrays (binary keys) and
  arrays of valid keys are keys, ordered in that sequence of kinds; dates do not occur in
  the model.
\<close>

type_synonym store = "(jsval \<times> jsobj) list"

fun valid_key :: "jsval \<Rightarrow> bool" where
  "valid_key (VNum n) = (n \<noteq> NaN)"
| "valid_key (VStr s) = True"
| "valid_key (VBigU64 ws) = True"
| "valid_key (VArr xs) = (NaN \<notin> set xs)"
| "valid_key _ = False"

fun key_kind :: "jsval \<Rightarrow> nat" where
  "key_kind (VNum n) = 0"
| "key_kind (VStr s) = 1"
| "key_kind (VBigU64 ws) = 2"
| "key_kind (VArr xs) = 3"
| "key_kind _ = 4"

fun lex_less :: "('a \<Rightarrow> 'a \<Rightarrow> bool) \<Rightarrow> 'a list \<Rightarrow> 'a list \<Rightarrow> bool" where
  "lex_less lt [] [] = False"
| "lex_less lt [] (y # ys) = True"
| "lex_less lt (x # xs) [] = False"
| "lex_less lt (x # xs) (y # ys) = (lt x y \<or> (\<not> lt y x \<and> lex_less lt xs ys))"

fun key_less :: "jsval \<Rightarrow> jsval \<Rightarrow> bool" where
  "key_less (VNum a) (VNum b) = jgt b a"
| "key_less (VStr a) (VStr b) = lex_less (\<lambda>c d. (of_char c :: nat) < of_char d) a b"
| "key_less (VBigU64 a) (VBigU64 b) = lex_less (\<lambda>c d. c < d) (buffer_bytes a) (buffer_bytes b)"
| "key_less (VArr a) (VArr b) = lex_less (\<lambda>c d. jgt d c) a b"
| "key_less a b = (key_kind a < key_kind b)"

definition store_get :: "store \<Rightarrow> jsval \<Rightarrow> jsobj option" where
  "store_get s key = map_of s key"

fun store_place :: "jsval \<Rightarrow> jsobj \<Rightarrow> store \<Rightarrow> store" where
  "store_place key r [] = [(key, r)]"
| "store_place key r ((k, r') # s) =
     (if key_less key k then (key, r) # (k, r') # s else (k, r') # store_place key r s)"

text \<open>\<open>put\<close>: the record replaces the one stored under its key, or takes its place in the order.\<close>

definition store_put :: "jsval \<Rightarrow> jsobj \<Rightarrow> store \<Rightarrow> store" where
  "store_put key r s =
     (if store_get s key = None then store_place key r s
      else map (\<lambda>(k, r'). if k = key then (k, r) else (k, r')) s)"

definition getAll :: "store \<Rightarrow> jsobj list" where
  "getAll s = map snd s"

text \<open>
  A readwrite transaction. IndexedDB commits a transaction when the requests made in it
  have completed and no further request is made; it aborts one, undoing its writes, on
  \<open>abort()\<close>, which the source never calls, or when a request fails and the error event is
  left unhandled, as \<open>add\<close> on an existing key does. An exception in the caller is
  neither: the \<open>throw\<close> statements of the source, and the DataError that the backend raises
  synchronously for an invalid key, reject the promise of the operation and leave the
  requests already made to commit. So the body of a transaction ends in one of three ways.
\<close>

datatype 'a outcome =
    Completed 'a store
  | Thrown error store
  | Aborted error

definition commit :: "store \<Rightarrow> 'a outcome \<Rightarrow> (error + 'a) \<times> store" where
  "commit s0 out =
     (case out of
        Completed a w \<Rightarrow> (Inr a, w)
      | Thrown e w \<Rightarrow> (Inl e, w)
      | Aborted e \<Rightarrow> (Inl e, s0))"

text \<open>\<open>store.add(record)\<close>, the key taken from the record by the key path \<open>"id"\<close>.\<close>

definition store_add :: "jsobj \<Rightarrow> store \<Rightarrow> jsval outcome" where
  "store_add r w =
     (let key = get_prop r ''id''
      in if \<not> valid_key key then Thrown DataError w
         else if store_get w key \<noteq> None then Aborted DuplicateIdentifier
         else Completed key (store_put key r w))"

section \<open>RecordStore\<close>

text \<open>
  An \<open>EntityDB\<close> instance: the configured attribute name and the embedding provider
  (\<open>getEmbeddingFromText\<close>), a function here. The constructor gives \<open>vectorPath\<close> no
  default; left out it is \<open>undefined\<close>, which as a property name is the string
  \<open>"undefined"\<close>. How long the provider takes, and with it whether a transaction opened
  before the call is still active after it, is outside the model.
\<close>

record config =
  vectorPath :: string
  embed :: "jsval \<Rightarrow> jsnum list"

fun nullish :: "jsval \<Rightarrow> bool" where
  "nullish VUndefined = True"
| "nullish VNull = True"
| "nullish _ = False"

fun truthy :: "jsval \<Rightarrow> bool" where
  "truthy VUndefined = False"
| "truthy VNull = False"
| "truthy (VBool b) = b"
| "truthy (VNum n) = (n \<noteq> NaN \<and> n \<noteq> Fin 0)"
| "truthy (VStr s) = (s \<noteq> [])"
| "truthy (VArr xs) = True"
| "truthy (VBigU64 ws) = True"

text \<open>\<open>Array.isArray(v) && v.length > 0\<close>.\<close>

fun nonempty_array :: "jsval \<Rightarrow> bool" where
  "nonempty_array (VArr xs) = (xs \<noteq> [])"
| "nonempty_array _ = False"

fun isArray :: "jsval \<Rightarrow> bool" where
  "isArray (VArr xs) = True"
| "isArray _ = False"

text \<open>\<open>a ?? b\<close>.\<close>

definition coalesce :: "jsval \<Rightarrow> jsval \<Rightarrow> jsval" where
  "coalesce a b = (if nullish a then b else a)"

text \<open>
  \<open>let embedding = data[this.vectorPath]; if (data.text) embedding = await
  getEmbeddingFromText(data.text, this.model)\<close>, shared by the insert operations.
\<close>

definition resolve_embedding :: "config \<Rightarrow> jsobj \<Rightarrow> jsval" where
  "resolve_embedding cfg data =
     (if truthy (get_prop data ''text'') then VArr (embed cfg (get_prop data ''text''))
      else get_prop data (vectorPath cfg))"

text \<open>
  \<open>insert(data)\<close>, here \<open>insert_db\<close> since \<open>insert\<close> is taken by the sets of HOL; the
  record is \<open>{ vector: embedding, ...data }\<close>.
\<close>

definition insert_db :: "config \<Rightarrow> store \<Rightarrow> jsobj \<Rightarrow> (error + jsval) \<times> store" where
  "insert_db cfg s data =
     (if nullish (get_prop data ''id'') then (Inl MissingIdentifier, s)
      else let embedding = resolve_embedding cfg data;
               r = [''vector'' \<mapsto> embedding] ++ data
           in commit s (store_add r s))"

text \<open>\<open>insertBinary(data)\<close>.\<close>

definition insertBinary :: "config \<Rightarrow> store \<Rightarrow> jsobj \<Rightarrow> (error + jsval) \<times> store" where
  "insertBinary cfg s data =
     (if nullish (get_prop data ''id'') then (Inl MissingIdentifier, s)
      else let embedding = resolve_embedding cfg data
           in case dense_operand embedding of
                None \<Rightarrow> (Inl TypeError, s)
              | Some vector \<Rightarrow>
                  (let binaryEmbedding = binarizeVector vector None;
                       packedEmbedding = pack binaryEmbedding;
                       r = [''vector'' \<mapsto> VBigU64 packedEmbedding] ++ data
                   in commit s (store_add r s)))"

text \<open>\<open>insertManualVectors(data)\<close> and \<open>insertManualBatch(dataArray)\<close>: no embedding step.\<close>

definition insertManualVectors :: "config \<Rightarrow> store \<Rightarrow> jsobj \<Rightarrow> (error + jsval) \<times> store" where
  "insertManualVectors cfg s data =
     (if nullish (get_prop data ''id'') then (Inl MissingIdentifier, s)
      else let r = [''vector'' \<mapsto> get_prop data (vectorPath cfg)] ++ data
           in commit s (store_add r s))"

fun insertManualBatch_loop ::
  "config \<Rightarrow> jsobj list \<Rightarrow> jsval list \<Rightarrow> store \<Rightarrow> jsval list outcome" where
  "insertManualBatch_loop cfg [] keys w = Completed keys w"
| "insertManualBatch_loop cfg (data # rest) keys w =
     (if nullish (get_prop data ''id'') then Thrown MissingIdentifier w
      else let embedding = get_prop data (vectorPath cfg);
               r = [''vector'' \<mapsto> embedding] ++ data
           in case store_add r w of
                Completed key w' \<Rightarrow> insertManualBatch_loop cfg rest (keys @ [key]) w'
              | Thrown e w' \<Rightarrow> Thrown e w'
              | Aborted e \<Rightarrow> Aborted e)"

definition insertManualBatch ::
  "config \<Rightarrow> store \<Rightarrow> jsobj list \<Rightarrow> (error + jsval list) \<times> store" where
  "insertManualBatch cfg s dataArray = commit s (insertManualBatch_loop cfg dataArray [] s)"

text \<open>
  \<open>insertBatch(dataArray)\<close>: one transaction around the loop. The embedding provider is
  awaited inside it; the model takes the transaction to be still active afterwards.
\<close>

fun insertBatch_loop :: "config \<Rightarrow> jsobj list \<Rightarrow> jsval list \<Rightarrow> store \<Rightarrow> jsval list outcome" where
  "insertBatch_loop cfg [] keys w = Completed keys w"
| "insertBatch_loop cfg (data # rest) keys w =
     (if nullish (get_prop data ''id'') then Thrown MissingIdentifier w
      else let embedding = resolve_embedding cfg data;
               r = [''vector'' \<mapsto> embedding] ++ data
           in case store_add r w of
                Completed key w' \<Rightarrow> insertBatch_loop cfg rest (keys @ [key]) w'
              | Thrown e w' \<Rightarrow> Thrown e w'
              | Aborted e \<Rightarrow> Aborted e)"

definition insertBatch :: "config \<Rightarrow> store \<Rightarrow> jsobj list \<Rightarrow> (error + jsval list) \<times> store" where
  "insertBatch cfg s dataArray = commit s (insertBatch_loop cfg dataArray [] s)"

text \<open>
  The merge of \<open>update\<close> and \<open>updateBatch\<close>:
  \<open>{ ...existing, ...data, [store.keyPath]: key, vector: vecToStore }\<close>.
\<close>

definition merge_update :: "config \<Rightarrow> jsobj \<Rightarrow> jsval \<Rightarrow> jsobj \<Rightarrow> jsobj" where
  "merge_update cfg existing key data =
     (let newVec = coalesce (get_prop data (vectorPath cfg)) (get_prop data ''vector'');
          vecToStore = (if nonempty_array newVec then newVec else get_prop existing ''vector'')
      in (existing ++ data)(''id'' \<mapsto> key, ''vector'' \<mapsto> vecToStore))"

text \<open>\<open>update(key, data)\<close>; \<open>store.get\<close> raises a DataError for a value that is no key.\<close>

definition update :: "config \<Rightarrow> store \<Rightarrow> jsval \<Rightarrow> jsobj \<Rightarrow> (error + unit) \<times> store" where
  "update cfg s key data =
     (if \<not> valid_key key then (Inl DataError, s)
      else case store_get s key of
             None \<Rightarrow> (Inl NotFound, s)
           | Some existing \<Rightarrow> (Inr (), store_put key (merge_update cfg existing key data) s))"

text \<open>\<open>updateBatch(updates)\<close>; each item is taken apart as \<open>{ key, ...data }\<close>.\<close>

definition rest_data :: "jsobj \<Rightarrow> jsobj" where
  "rest_data u = u(''key'' := None)"

fun updateBatch_loop :: "config \<Rightarrow> jsobj list \<Rightarrow> store \<Rightarrow> unit outcome" where
  "updateBatch_loop cfg [] w = Completed () w"
| "updateBatch_loop cfg (u # rest) w =
     (let key = get_prop u ''key''; data = rest_data u
      in if \<not> valid_key key then Thrown DataError w
         else case store_get w key of
                None \<Rightarrow> updateBatch_loop cfg rest w
              | Some existing \<Rightarrow>
                  updateBatch_loop cfg rest (store_put key (merge_update cfg existing key data) w))"

definition updateBatch :: "config \<Rightarrow> store \<Rightarrow> jsobj list \<Rightarrow> (error + unit) \<times> store" where
  "updateBatch cfg s updates = commit s (updateBatch_loop cfg updates s)"

text \<open>
  \<open>delete(key)\<close> and \<open>deleteBatch(keys)\<close>; a key that is not stored is no error. (The name
  \<open>delete_db\<close> follows \<open>insert_db\<close>.) And \<open>getAllKeys()\<close>.
\<close>

definition store_delete :: "jsval \<Rightarrow> store \<Rightarrow> store" where
  "store_delete key s = filter (\<lambda>(k, r). k \<noteq> key) s"

definition delete_db :: "store \<Rightarrow> jsval \<Rightarrow> (error + unit) \<times> store" where
  "delete_db s key =
     (if \<not> valid_key key then (Inl DataError, s) else (Inr (), store_delete key s))"

fun deleteBatch_loop :: "jsval list \<Rightarrow> store \<Rightarrow> unit outcome" where
  "deleteBatch_loop [] w = Completed () w"
| "deleteBatch_loop (key # keys) w =
     (if \<not> valid_key key then Thrown DataError w
      else deleteBatch_loop keys (store_delete key w))"

definition deleteBatch :: "store \<Rightarrow> jsval list \<Rightarrow> (error + unit) \<times> store" where
  "deleteBatch s keys = commit s (deleteBatch_loop keys s)"

definition getAllKeys :: "store \<Rightarrow> jsval list" where
  "getAllKeys s = map fst s"

text \<open>\<open>hasEmbedding(key)\<close>.\<close>

definition hasEmbedding :: "config \<Rightarrow> store \<Rightarrow> jsval \<Rightarrow> error + bool" where
  "hasEmbedding cfg s key =
     (if \<not> valid_key key then Inl DataError
      else case store_get s key of
             None \<Rightarrow> Inr False
           | Some r \<Rightarrow>
               (let vec = coalesce (get_prop r (vectorPath cfg)) (get_prop r ''vector'')
                in if \<not> isArray vec \<or> \<not> nonempty_array vec then Inr False else Inr True))"


section \<open>QueryEngine\<close>

text \<open>\<open>xs.slice(0, end)\<close> for an integer \<open>end\<close>: a negative \<open>end\<close> counts from the end.\<close>

definition slice0 :: "'a list \<Rightarrow> int \<Rightarrow> 'a list" where
  "slice0 xs end =
     (let len = int (length xs);
          final = (if end < 0 then max (len + end) 0 else min end len)
      in take (nat final) xs)"

text \<open>The \<open>limit\<close> of the options, \<open>10\<close> when left out.\<close>

definition limit_of :: "int option \<Rightarrow> int" where
  "limit_of opt = (case opt of None \<Rightarrow> 10 | Some limit \<Rightarrow> limit)"

text \<open>The number in a score field that the query has just written.\<close>

fun score_of :: "jsval \<Rightarrow> jsnum" where
  "score_of (VNum n) = n"
| "score_of _ = NaN"


text \<open>\<open>queryBinary(queryText, { limit })\<close>.\<close>

definition queryBinary :: "config \<Rightarrow> store \<Rightarrow> jsval \<Rightarrow> int option \<Rightarrow> error + jsobj list" where
  "queryBinary cfg s queryText opt =
     (let queryVector = embed cfg queryText;
          binaryQueryVector = binarizeVector queryVector None;
          packedQueryVector = pack binaryQueryVector;
          vectors = getAll s
      in case map_result
                (\<lambda>entry. case hammingDistance packedQueryVector (get_prop entry ''vector'') of
                            Inl e \<Rightarrow> Inl e
                          | Inr distance \<Rightarrow> Inr (entry(''distance'' \<mapsto> VNum (Fin (real distance)))))
                vectors of
           Inl e \<Rightarrow> Inl e
         | Inr distances \<Rightarrow>
             Inr (slice0
                    (array_sort
                       (\<lambda>a b. jsub (score_of (get_prop a ''distance''))
                                    (score_of (get_prop b ''distance'')))
                       distances)
                    (limit_of opt)))"

text \<open>
  \<open>queryBinarySIMD(queryText, { limit })\<close>. Before the kernel is loaded the records are
  printed, which reads \<open>entry.vector.buffer\<close> of each a first time.
\<close>

definition queryBinarySIMD :: "config \<Rightarrow> store \<Rightarrow> jsval \<Rightarrow> int option \<Rightarrow> error + jsobj list" where
  "queryBinarySIMD cfg s queryText opt =
     (let queryVector = embed cfg queryText;
          binaryQueryVector = binarizeVector queryVector None;
          packedQueryVector = pack binaryQueryVector;
          vectors = getAll s
      in case map_result (\<lambda>entry. vector_buffer_bytes (get_prop entry ''vector'')) vectors of
           Inl e \<Rightarrow> Inl e
         | Inr printed \<Rightarrow>
        (case simd_scores packedQueryVector (map (\<lambda>entry. get_prop entry ''vector'') vectors) of
           Inl e \<Rightarrow> Inl e
         | Inr ds \<Rightarrow>
             Inr (slice0
                    (array_sort
                       (\<lambda>a b. jsub (score_of (get_prop a ''distance''))
                                    (score_of (get_prop b ''distance'')))
                       (map (\<lambda>(entry, distance). entry(''distance'' \<mapsto> VNum (Fin (real_of_int distance))))
                          (zip vectors ds)))
                    (limit_of opt))))"



text \<open>
  What the insert and update operations maintain: keys are valid and stored once, the
  \<open>id\<close> of a record is its key, and every record has a \<open>vector\<close> property.
\<close>

definition wf_store :: "store \<Rightarrow> bool" where
  "wf_store s =
     (distinct (map fst s) \<and>
      (\<forall>(k, r) \<in> set s. valid_key k \<and> r ''id'' = Some k \<and> r ''vector'' \<noteq> None))"

text \<open>The records built by \<open>insert\<close> and \<open>insertBatch\<close>, and by \<open>insertBinary\<close>.\<close>

definition dense_record :: "config \<Rightarrow> jsobj \<Rightarrow> jsobj" where
  "dense_record cfg data = [''vector'' \<mapsto> resolve_embedding cfg data] ++ data"

definition id_of :: "jsobj \<Rightarrow> jsval" where
  "id_of data = get_prop data ''id''"

section \<open>Example data\<close>

text \<open>
  An instance configured with \<open>vectorPath: "embedding"\<close> and an embedding provider that
  answers every text with \<open>[0.5, 0.25]\<close>; a store with one record.
\<close>

definition example_config :: config where
  "example_config = \<lparr>vectorPath = ''embedding'', embed = (\<lambda>text. [Fin (1 / 2), Fin (1 / 4)])\<rparr>"

definition example_record :: jsobj where
  "example_record =
     [''id'' \<mapsto> VNum (Fin 1), ''vector'' \<mapsto> VArr [Fin 1, Fin 0], ''title'' \<mapsto> VStr ''a'']"

definition example_store :: store where
  "example_store = [(VNum (Fin 1), example_record)]"


definition example_batch :: "jsobj list" where
  "example_batch =
     [[''id'' \<mapsto> VNum (Fin 1), ''embedding'' \<mapsto> VArr [Fin 1, Fin 0]],
      [''embedding'' \<mapsto> VArr [Fin 0, Fin 1]]]"





text \<open>
  An embedding of 256 components whose upper half holds the larger values, an instance
  whose provider returns it, the store after \<open>insertBinary\<close> of one text record, and the
  kernel's memory once the query and that record have been written to it.
\<close>

definition example_wide_embedding :: "jsnum list" where
  "example_wide_embedding = replicate 128 (Fin 0) @ replicate 128 (Fin 1)"

definition example_wide_config :: config where
  "example_wide_config = \<lparr>vectorPath = ''embedding'', embed = (\<lambda>text. example_wide_embedding)\<rparr>"

definition example_wide_input :: jsobj where
  "example_wide_input = [''id'' \<mapsto> VNum (Fin 1), ''text'' \<mapsto> VStr ''a'']"

definition example_wide_store :: store where
  "example_wide_store = snd (insertBinary example_wide_config [] example_wide_input)"

definition wide_mem :: memory where
  "wide_mem =
     memory_write (buffer_bytes [0, 0, 18446744073709551615, 18446744073709551615]) 16
       (memory_write (buffer_bytes [0, 0, 18446744073709551615, 18446744073709551615]) 0
          zero_memory)"

section \<open>Properties of the Quantizer\<close>

subsection \<open>Packing\<close>

lemma pack_step_length: "length (pack_step bits i ws) = length ws"
  by (simp add: pack_step_def Let_def)

lemma fold_pack_length: "length (fold (pack_step bits) is ws) = length ws"
  by (induction "is" arbitrary: ws) (simp_all add: pack_step_length)

lemma bit_or_single: "bit ((w :: 64 word) OR 2 ^ m) k \<longleftrightarrow> bit w k \<or> (k = m \<and> m < 64)"
  by (auto simp add: bit_or_iff bit_exp_iff)

lemma index_split: "k < 64 \<Longrightarrow> (64 * j + k = n) = (j = n div 64 \<and> k = n mod (64::nat))"
  by auto

text \<open>After the first \<open>n\<close> rounds of the loop, a bit is set if it was set before or if one
  of these rounds set it.\<close>

lemma fold_pack_bit:
  assumes "j < length ws"
  shows "bit (fold (pack_step bits) [0..<n] ws ! j) k \<longleftrightarrow>
         bit (ws ! j) k \<or> (k < 64 \<and> 64 * j + k < n \<and> bits ! (64 * j + k) = 1)"
proof (induction n)
  case 0
  show ?case by simp
next
  case (Suc n)
  let ?ws = "fold (pack_step bits) [0..<n] ws"
  have len: "j < length ?ws" using assms by (simp add: fold_pack_length)
  have step: "bit (pack_step bits n ?ws ! j) k \<longleftrightarrow>
              bit (?ws ! j) k \<or> (bits ! n = 1 \<and> j = n div 64 \<and> k = n mod 64)"
  proof (cases "j = n div 64")
    case True
    then show ?thesis using len by (simp add: pack_step_def Let_def bit_or_single)
  next
    case False
    then show ?thesis by (simp add: pack_step_def Let_def)
  qed
  have "(k < 64 \<and> 64 * j + k < Suc n \<and> bits ! (64 * j + k) = 1) \<longleftrightarrow>
        (k < 64 \<and> 64 * j + k < n \<and> bits ! (64 * j + k) = 1) \<or>
        (bits ! n = 1 \<and> j = n div 64 \<and> k = n mod 64)"
    using index_split [of k j n] by (auto simp add: less_Suc_eq)
  with step Suc show ?case by auto
qed

lemma ceil64: "nat \<lceil>real n / 64\<rceil> = (n + 63) div 64"
  by linarith

lemma pack_length: "length (pack bits) = (length bits + 63) div 64"
  by (simp add: pack_def fold_pack_length)

lemma pack_bit:
  assumes "i < length bits"
  shows "bit (pack bits ! (i div 64)) (i mod 64) \<longleftrightarrow> bits ! i = 1"
proof -
  have "i div 64 < (length bits + 63) div 64" using assms by auto
  then show ?thesis
    using assms by (simp add: pack_def fold_pack_bit)
qed

lemma unpack_pack:
  assumes "set b \<subseteq> {0, 1}"
  shows "unpack (pack b) (length b) = b"
proof (rule nth_equalityI)
  show "length (unpack (pack b) (length b)) = length b" by (simp add: unpack_def)
next
  fix i assume "i < length (unpack (pack b) (length b))"
  then have i: "i < length b" by (simp add: unpack_def)
  then have "b ! i \<in> {0, 1}" using assms by (meson nth_mem subsetD)
  then show "unpack (pack b) (length b) ! i = b ! i"
    using i by (auto simp add: unpack_def pack_bit)
qed

text \<open>
  C8. For every binary sequence \<open>b\<close> of length \<open>L\<close>, packing produces \<open>ceil(L / 64)\<close>
  words, bit \<open>i\<close> of \<open>b\<close> sits in word \<open>floor(i / 64)\<close> at position \<open>i mod 64\<close>, counted from
  the least significant bit, and unpacking the packed words to \<open>L\<close> bits gives \<open>b\<close> back.
\<close>

theorem pack_unpack_roundtrip:
  assumes "set b \<subseteq> {0, 1}"
  shows "length (pack b) = nat \<lceil>real (length b) / 64\<rceil> \<and>
         (\<forall>i<length b. bit (pack b ! (i div 64)) (i mod 64) \<longleftrightarrow> b ! i = 1) \<and>
         unpack (pack b) (length b) = b"
  using assms by (simp add: pack_length ceil64 pack_bit unpack_pack)

theorem pack_unpack_roundtrip_witness:
  "set [1, 0, 1, 1] \<subseteq> {0, 1 :: nat} \<and>
   unpack (pack [1, 0, 1, 1]) (length [1, 0, 1, 1 :: nat]) = [1, 0, 1, 1]"
  using pack_unpack_roundtrip [of "[1, 0, 1, 1]"] by simp

subsection \<open>The default threshold\<close>

lemma cmp_sub_gt: "a \<noteq> NaN \<Longrightarrow> b \<noteq> NaN \<Longrightarrow> jgt (jsub a b) (Fin 0) = jgt a b"
  by (cases a; cases b) (simp_all add: jsub_def)

lemma not_jgt_jle: "a \<noteq> NaN \<Longrightarrow> b \<noteq> NaN \<Longrightarrow> \<not> jgt a b \<Longrightarrow> jle a b"
  by (cases a; cases b) (auto simp add: jle_def)

lemma jgt_jle: "jgt a b \<Longrightarrow> jle b a"
  by (cases a; cases b) (auto simp add: jle_def)

lemma jle_trans: "jle a b \<Longrightarrow> jle b c \<Longrightarrow> jle a c"
  by (cases a; cases b; cases c) (auto simp add: jle_def)

lemma jle_antisym: "jle a b \<Longrightarrow> jle b a \<Longrightarrow> a = b"
  by (cases a; cases b) (auto simp add: jle_def)

lemma mset_sort_insert: "mset (sort_insert cmp x ys) = add_mset x (mset ys)"
  by (induction ys) simp_all

lemma mset_array_sort: "mset (array_sort cmp xs) = mset xs"
  by (induction xs) (simp_all add: mset_sort_insert)

lemma set_sort_insert: "set (sort_insert cmp x ys) = insert x (set ys)"
  using mset_sort_insert [of cmp x ys] by (metis set_mset_add_mset_insert set_mset_mset)

lemma length_array_sort: "length (array_sort cmp xs) = length xs"
  using mset_array_sort [of cmp xs] by (metis size_mset)

lemma sorted_sort_insert:
  assumes "x \<noteq> NaN" "NaN \<notin> set ys" "sorted_wrt jle ys"
  shows "sorted_wrt jle (sort_insert (\<lambda>a b. jsub a b) x ys)"
  using assms
proof (induction ys)
  case Nil
  show ?case by simp
next
  case (Cons y ys)
  have ny: "y \<noteq> NaN" using Cons.prems(2) by auto
  show ?case
  proof (cases "jgt x y")
    case True
    have yx: "jle y x" using True by (rule jgt_jle)
    have "sorted_wrt jle (sort_insert (\<lambda>a b. jsub a b) x ys)"
      using Cons by simp
    with True yx ny Cons.prems(1,3) show ?thesis
      by (auto simp add: cmp_sub_gt set_sort_insert)
  next
    case False
    have xy: "jle x y" using False Cons.prems(1) ny by (rule_tac not_jgt_jle)
    have "\<forall>z\<in>set ys. jle x z" using xy Cons.prems(3) by (auto intro: jle_trans)
    with False xy Cons.prems(1,3) ny show ?thesis by (simp add: cmp_sub_gt)
  qed
qed

lemma sorted_array_sort:
  "NaN \<notin> set xs \<Longrightarrow> sorted_wrt jle (array_sort (\<lambda>a b. jsub a b) xs)"
proof (induction xs)
  case Nil
  show ?case by simp
next
  case (Cons x xs)
  have "NaN \<notin> set (array_sort (\<lambda>a b. jsub a b) xs)"
    using Cons.prems mset_array_sort [of "\<lambda>a b. jsub a b" xs]
    by (metis list.set_intros(2) set_mset_mset)
  moreover have "x \<noteq> NaN" using Cons.prems by auto
  moreover have "sorted_wrt jle (array_sort (\<lambda>a b. jsub a b) xs)" using Cons by simp
  ultimately show ?case using sorted_sort_insert by simp
qed

text \<open>Under an antisymmetric order a collection of values has one sorted arrangement.\<close>

lemma sorted_wrt_mset_unique:
  assumes "\<And>x y. x \<in> set xs \<Longrightarrow> y \<in> set xs \<Longrightarrow> P x y \<Longrightarrow> P y x \<Longrightarrow> x = y"
    and "sorted_wrt P xs" and "sorted_wrt P ys" and "mset xs = mset ys"
  shows "xs = ys"
  using assms
proof (induction xs arbitrary: ys)
  case Nil
  then show ?case by simp
next
  case (Cons x xs)
  from Cons.prems(4) obtain y ys' where ys: "ys = y # ys'" by (cases ys) auto
  have sets: "set (x # xs) = set ys" using Cons.prems(4) by (metis set_mset_mset)
  have "x = y"
  proof (rule ccontr)
    assume neq: "x \<noteq> y"
    have "x \<in> set ys'" using sets ys neq by auto
    then have 1: "P y x" using Cons.prems(3) ys by simp
    have yin: "y \<in> set xs" using sets ys neq by auto
    then have 2: "P x y" using Cons.prems(2) by simp
    from Cons.prems(1) [of x y] 1 2 yin neq show False by simp
  qed
  moreover have "xs = ys'"
  proof (rule Cons.IH)
    show "\<And>a b. a \<in> set xs \<Longrightarrow> b \<in> set xs \<Longrightarrow> P a b \<Longrightarrow> P b a \<Longrightarrow> a = b"
      using Cons.prems(1) by simp
    show "sorted_wrt P xs" using Cons.prems(2) by simp
    show "sorted_wrt P ys'" using Cons.prems(3) ys by simp
    show "mset xs = mset ys'" using Cons.prems(4) ys \<open>x = y\<close> by simp
  qed
  ultimately show ?case using ys by simp
qed

lemma num_at_int: "i < length s \<Longrightarrow> num_at s (int i) = s ! i"
  by (simp add: num_at_def)

lemma threshold_is_median:
  assumes "v \<noteq> []" and s: "s = array_sort (\<lambda>a b. jsub a b) v"
  shows "(if length s mod 2 = 0
          then jdiv (jadd (num_at s (int (length s) div 2 - 1))
                          (num_at s (int (length s) div 2))) (Fin 2)
          else num_at s (int (length s) div 2)) = median_of_sorted s"
proof -
  have len: "length s = length v" by (simp add: s length_array_sort)
  then have pos: "0 < length s" using assms by simp
  have m: "int (length s) div 2 = int (length s div 2)" by (simp add: zdiv_int)
  have a: "num_at s (int (length s) div 2) = s ! (length s div 2)"
    unfolding m using pos by (intro num_at_int) simp
  have b: "num_at s (int (length s) div 2 - 1) = s ! (length s div 2 - 1)"
    if ev: "length s mod 2 = 0"
  proof -
    have "2 \<le> length s" using pos ev by presburger
    then have "1 \<le> length s div 2" by simp
    then have m1: "int (length s) div 2 - 1 = int (length s div 2 - 1)"
      unfolding m by simp
    show ?thesis unfolding m1 using pos by (intro num_at_int) linarith
  qed
  show ?thesis
  proof (cases "length s mod 2 = 0")
    case True
    then show ?thesis using a b by (simp add: median_of_sorted_def even_iff_mod_2_eq_zero)
  next
    case False
    then show ?thesis using a by (simp add: median_of_sorted_def even_iff_mod_2_eq_zero)
  qed
qed

lemma binarize_median:
  assumes "NaN \<notin> set v" "mset s = mset v" "sorted_wrt jle s"
  shows "binarizeVector v None = map (\<lambda>x. if jge x (median_of_sorted s) then 1 else 0) v"
proof (cases "v = []")
  case True
  then show ?thesis by (simp add: binarizeVector_def)
next
  case False
  let ?s = "array_sort (\<lambda>a b. jsub a b) v"
  have "set s = set v" using assms(2) by (metis set_mset_mset)
  then have "\<And>x y. x \<in> set s \<Longrightarrow> y \<in> set s \<Longrightarrow> jle x y \<Longrightarrow> jle y x \<Longrightarrow> x = y"
    by (rule_tac jle_antisym)
  then have "s = ?s"
    using sorted_wrt_mset_unique [of s jle ?s] assms sorted_array_sort [of v]
      mset_array_sort [of "\<lambda>a b. jsub a b" v]
    by simp
  then have "binarizeVector v None =
             map (\<lambda>val. if jge val (median_of_sorted s) then 1 else 0) v"
    unfolding binarizeVector_def Let_def option.case
    using threshold_is_median [OF False, of s] by presburger
  then show ?thesis .
qed




section \<open>Properties of the SimilarityEngine\<close>

lemma jadd_NaN_right: "jadd a NaN = NaN"
  by (cases a) simp_all

lemma jmul_NaN_right: "jmul a NaN = NaN"
  by (cases a) simp_all

lemma fold_dot_NaN:
  "fold (\<lambda>(val, index) sum. jadd sum (jmul val (num_at ys (int index)))) ps NaN = NaN"
  by (induction ps) (simp_all add: split_def)

text \<open>Once the index runs past the end of \<open>vecB\<close>, the sum is \<open>NaN\<close> and stays so.\<close>

lemma fold_dot_short:
  "xs \<noteq> [] \<Longrightarrow> length ys < k + length xs \<Longrightarrow>
   fold (\<lambda>(val, index) sum. jadd sum (jmul val (num_at ys (int index))))
     (zip xs [k..<k + length xs]) s = NaN"
proof (induction xs arbitrary: k s)
  case Nil
  then show ?case by simp
next
  case (Cons x xs)
  have z: "zip (x # xs) [k..<k + length (x # xs)] = (x, k) # zip xs [Suc k..<Suc k + length xs]"
    by (simp add: upt_rec [of k] del: upt_Suc)
  show ?case
  proof (cases "k < length ys")
    case True
    then have "xs \<noteq> []" "length ys < Suc k + length xs" using Cons.prems by auto
    then show ?thesis unfolding z using Cons.IH [of "Suc k"] by simp
  next
    case False
    then have "num_at ys (int k) = NaN" by (simp add: num_at_def)
    then show ?thesis unfolding z by (simp add: jmul_NaN_right jadd_NaN_right fold_dot_NaN)
  qed
qed

lemma dot_product_short:
  assumes "length ys < length xs"
  shows "dot_product xs ys = NaN"
proof -
  have "xs \<noteq> []" using assms by auto
  then show ?thesis
    using assms fold_dot_short [of xs ys 0 "Fin 0"] by (simp add: dot_product_def)
qed

text \<open>
  \<open>cosineSimilarity\<close> compares no lengths: for every pair of dense vectors, of equal
  length or not, it returns a number and raises nothing; when the first vector is the
  longer one, that number is \<open>NaN\<close>.
\<close>

lemma cosine_never_fails:
  "(\<exists>r. cosineSimilarity (VArr a) (VArr b) = Inr r) \<and>
   (length b < length a \<longrightarrow> cosineSimilarity (VArr a) (VArr b) = Inr NaN)"
  by (simp add: cosineSimilarity_def dot_product_short)

lemma cosine_longer_first_example:
  "cosineSimilarity (VArr [Fin 1, Fin 2]) (VArr [Fin 1]) = Inr NaN"
  using cosine_never_fails [of "[Fin 1, Fin 2]" "[Fin 1]"] by simp

text \<open>
  C3 at the vectors \<open>[1]\<close> and \<open>[1, 0]\<close>, of lengths 1 and 2: the operation returns the
  similarity \<open>1\<close> where the claim has it fail with \<open>LengthMismatch\<close>. The length test that
  \<open>hammingDistance\<close> makes is missing here.
\<close>

theorem cosine_unequal_length_returns_value:
  "cosineSimilarity (VArr [Fin 1]) (VArr [Fin 1, Fin 0]) = Inr (Fin 1)"
  by (simp add: cosineSimilarity_def dot_product_def magnitude_def num_at_def)

section \<open>Properties of the DistanceEngine\<close>

lemma loop_done: "hamming_distance_loop mem ptrA ptrB 0 d = Some d"
  by (simp add: hamming_distance_loop.simps)

lemma loop_step:
  assumes "len \<noteq> 0" "unat ptrA + 16 \<le> mem_size" "unat ptrB + 16 \<le> mem_size"
  shows "hamming_distance_loop mem ptrA ptrB len d =
         hamming_distance_loop mem (ptrA + 16) (ptrB + 16) (len - 16)
           (let x = v128_load mem (unat ptrA) XOR v128_load mem (unat ptrB)
            in d + (i32_popcnt (i32x4_extract_lane 0 x)
                 + (i32_popcnt (i32x4_extract_lane 1 x)
                 + (i32_popcnt (i32x4_extract_lane 2 x)
                 + i32_popcnt (i32x4_extract_lane 3 x)))))"
  using assms by (subst hamming_distance_loop.simps) (simp add: Let_def)

lemma popcnt_lane_0: "i32_popcnt (i32x4_extract_lane k 0) = 0"
  by (simp add: i32x4_extract_lane_def i32_popcnt_def)

section \<open>Properties of the RecordStore\<close>

subsection \<open>The backend\<close>

lemma store_get_Nil: "store_get [] k = None"
  by (simp add: store_get_def)

lemma store_get_Cons: "store_get ((k', r) # s) k = (if k = k' then Some r else store_get s k)"
  by (simp add: store_get_def)

lemma store_get_None_keys: "store_get s key = None \<longleftrightarrow> key \<notin> fst ` set s"
  by (simp add: store_get_def map_of_eq_None_iff)

lemma store_get_place_other:
  "k \<noteq> key \<Longrightarrow> store_get (store_place key r s) k = store_get s k"
  by (induction s) (auto simp add: store_get_Cons store_get_Nil)

lemma store_get_place_same:
  "store_get s key = None \<Longrightarrow> store_get (store_place key r s) key = Some r"
  by (induction s) (auto simp add: store_get_Cons store_get_Nil split: if_splits)

lemma store_get_replace_other:
  "k \<noteq> key \<Longrightarrow>
   store_get (map (\<lambda>(k, r'). if k = key then (k, r) else (k, r')) s) k = store_get s k"
  by (induction s) (auto simp add: store_get_Cons store_get_Nil)

lemma store_get_replace_same:
  "store_get s key \<noteq> None \<Longrightarrow>
   store_get (map (\<lambda>(k, r'). if k = key then (k, r) else (k, r')) s) key = Some r"
  by (induction s) (auto simp add: store_get_Cons store_get_Nil split: if_splits)

lemma store_get_put:
  "store_get (store_put key r s) k = (if k = key then Some r else store_get s k)"
  by (simp add: store_put_def store_get_place_other store_get_place_same
        store_get_replace_other store_get_replace_same)

lemma set_place: "set (store_place key r s) = insert (key, r) (set s)"
proof (induction s)
  case Nil
  show ?case by simp
next
  case (Cons p s)
  obtain k' r' where p: "p = (k', r')" by (cases p)
  show ?case using Cons p by (cases "key_less key k'") auto
qed

lemma keys_place: "fst ` set (store_place key r s) = insert key (fst ` set s)"
  by (simp add: set_place)

lemma distinct_place:
  "store_get s key = None \<Longrightarrow> distinct (map fst s) \<Longrightarrow> distinct (map fst (store_place key r s))"
proof (induction s)
  case Nil
  then show ?case by simp
next
  case (Cons p s)
  obtain k r' where p: "p = (k, r')" by (cases p)
  from Cons.prems(1) p have nk: "k \<noteq> key" and rest: "store_get s key = None"
    by (auto simp add: store_get_Cons split: if_splits)
  have d: "distinct (map fst (store_place key r s))" using Cons rest by simp
  have a: "key \<notin> fst ` set s" using rest by (simp add: store_get_None_keys)
  have b: "k \<notin> fst ` set s" using Cons.prems(2) p by simp
  show ?case
  proof (cases "key_less key k")
    case True
    then show ?thesis using Cons.prems(2) p nk a by simp
  next
    case False
    have "k \<notin> fst ` set (store_place key r s)" using b nk by (simp add: keys_place)
    then show ?thesis using False p d by simp
  qed
qed

lemma keys_replace:
  "map fst (map (\<lambda>(k, r'). if k = key then (k, r) else (k, r')) s) = map fst s"
  by (induction s) auto

lemma set_replace:
  "p \<in> set (map (\<lambda>(k, r'). if k = key then (k, r) else (k, r')) s) \<Longrightarrow>
   p \<in> set s \<or> p = (key, r)"
  by (induction s) (auto split: if_splits)

lemma wf_store_put:
  assumes "wf_store s" "valid_key key" "r ''id'' = Some key" "r ''vector'' \<noteq> None"
  shows "wf_store (store_put key r s)"
proof (cases "store_get s key = None")
  case True
  then have "store_put key r s = store_place key r s" by (simp add: store_put_def)
  moreover have "distinct (map fst (store_place key r s))"
    using True assms(1) by (simp add: wf_store_def distinct_place)
  ultimately show ?thesis
    using assms by (auto simp add: wf_store_def set_place)
next
  case False
  have "store_put key r s = map (\<lambda>(k, r'). if k = key then (k, r) else (k, r')) s"
    using False by (auto simp add: store_put_def)
  then have "map fst (store_put key r s) = map fst s"
    using keys_replace [of key r s] by simp
  then have "distinct (map fst (store_put key r s))"
    using assms(1) by (simp add: wf_store_def)
  moreover have "\<forall>(k, r') \<in> set (store_put key r s). valid_key k \<and> r' ''id'' = Some k \<and> r' ''vector'' \<noteq> None"
  proof -
    have "valid_key k \<and> r' ''id'' = Some k \<and> r' ''vector'' \<noteq> None"
      if "(k, r') \<in> set (store_put key r s)" for k r'
    proof -
      from that False have "(k, r') \<in> set s \<or> (k, r') = (key, r)"
        using set_replace [of "(k, r')" key r s] by (simp add: store_put_def)
      then show ?thesis using assms by (auto simp add: wf_store_def)
    qed
    then show ?thesis by auto
  qed
  ultimately show ?thesis by (simp add: wf_store_def)
qed

lemma store_put_same:
  assumes "distinct (map fst s)" "store_get s key = Some r"
  shows "store_put key r s = s"
proof -
  have "\<And>p. p \<in> set s \<Longrightarrow> (\<lambda>(k, r'). if k = key then (k, r) else (k, r')) p = p"
  proof -
    fix p assume pin: "p \<in> set s"
    obtain k r' where p: "p = (k, r')" by (cases p)
    have "map_of s k = Some r'" using pin p assms(1) by simp
    then have "k = key \<Longrightarrow> r' = r" using assms(2) by (simp add: store_get_def)
    then show "(\<lambda>(k, r'). if k = key then (k, r) else (k, r')) p = p"
      using p by auto
  qed
  then have "map (\<lambda>(k, r'). if k = key then (k, r) else (k, r')) s = s"
    by (simp add: map_idI)
  then show ?thesis using assms(2) by (simp add: store_put_def)
qed

lemma wf_store_entry:
  assumes "wf_store s" "store_get s key = Some r"
  shows "valid_key key \<and> r ''id'' = Some key \<and> r ''vector'' \<noteq> None"
proof -
  have "(key, r) \<in> set s" using assms(2) by (simp add: store_get_def map_of_SomeD)
  then show ?thesis using assms(1) by (auto simp add: wf_store_def)
qed

lemma merge_update_empty:
  assumes "r ''id'' = Some key" "r ''vector'' \<noteq> None"
  shows "merge_update cfg r key Map.empty = r"
proof -
  from assms(2) obtain v where v: "r ''vector'' = Some v" by auto
  have "coalesce (get_prop Map.empty (vectorPath cfg)) (get_prop Map.empty ''vector'') = VUndefined"
    by (simp add: coalesce_def get_prop_def)
  then have "merge_update cfg r key Map.empty = r(''id'' \<mapsto> key, ''vector'' \<mapsto> v)"
    using v by (simp add: merge_update_def Let_def get_prop_def)
  also have "\<dots> = r" using assms(1) v by (simp add: map_upd_triv)
  finally show ?thesis .
qed

text \<open>
  C6. For every record present in the store, \<open>update(id, {})\<close> succeeds and leaves the
  store as it was: the record under \<open>id\<close> has the same vector and the same other fields.
  The store is one that the operations of this file produce (\<open>wf_store\<close>).
\<close>

theorem update_empty_patch_unchanged:
  assumes "wf_store s" and "store_get s key = Some r"
  shows "update cfg s key Map.empty = (Inr (), s) \<and>
         store_get (snd (update cfg s key Map.empty)) key = Some r"
proof -
  have e: "valid_key key \<and> r ''id'' = Some key \<and> r ''vector'' \<noteq> None"
    using assms by (rule wf_store_entry)
  have d: "distinct (map fst s)" using assms(1) by (simp add: wf_store_def)
  have "update cfg s key Map.empty = (Inr (), s)"
    using e assms(2) by (simp add: update_def merge_update_empty store_put_same [OF d])
  then show ?thesis using assms(2) by simp
qed

theorem update_empty_patch_unchanged_witness:
  "wf_store example_store \<and>
   store_get example_store (VNum (Fin 1)) = Some example_record \<and>
   update example_config example_store (VNum (Fin 1)) Map.empty = (Inr (), example_store)"
  using update_empty_patch_unchanged
          [of example_store "VNum (Fin 1)" example_record example_config]
  by (simp add: wf_store_def store_get_def example_store_def example_record_def)

subsection \<open>update and updateBatch\<close>

lemma update_absent:
  "valid_key key \<Longrightarrow> store_get s key = None \<Longrightarrow> update cfg s key data = (Inl NotFound, s)"
  by (simp add: update_def)

lemma updateBatch_loop_fold:
  "\<forall>u\<in>set ups. valid_key (get_prop u ''key'') \<Longrightarrow>
   updateBatch_loop cfg ups w =
   Completed () (fold (\<lambda>u w. snd (update cfg w (get_prop u ''key'') (rest_data u))) ups w)"
proof (induction ups arbitrary: w)
  case Nil
  show ?case by simp
next
  case (Cons u ups)
  let ?k = "get_prop u ''key''" and ?d = "rest_data u"
  have v: "valid_key ?k" and rest: "\<forall>u\<in>set ups. valid_key (get_prop u ''key'')"
    using Cons.prems by simp_all
  show ?case
  proof (cases "store_get w ?k")
    case None
    then have "snd (update cfg w ?k ?d) = w" using v by (simp add: update_def)
    then show ?thesis using None v Cons.IH [OF rest, of w] by (simp add: Let_def)
  next
    case (Some existing)
    then have "snd (update cfg w ?k ?d) = store_put ?k (merge_update cfg existing ?k ?d) w"
      using v by (simp add: update_def)
    then show ?thesis
      using Some v Cons.IH [OF rest, of "store_put ?k (merge_update cfg existing ?k ?d) w"]
      by (simp add: Let_def)
  qed
qed

lemma keys_put_present:
  "store_get s key \<noteq> None \<Longrightarrow> map fst (store_put key r s) = map fst s"
  using keys_replace [of key r s] by (auto simp add: store_put_def)

lemma update_keys: "map fst (snd (update cfg s key data)) = map fst s"
  by (cases "store_get s key") (simp_all add: update_def keys_put_present)

lemma fold_update_keys:
  "map fst (fold (\<lambda>u w. snd (update cfg w (get_prop u ''key'') (rest_data u))) ups w) = map fst w"
  by (induction ups arbitrary: w) (simp_all add: update_keys)

text \<open>
  C5. For an identifier that is not in the store, \<open>update(id, patch)\<close> fails with
  \<open>NotFound\<close> and changes nothing. \<open>updateBatch\<close> does not raise for it: on a list of
  patches (with keys that the backend accepts) it returns normally, and its effect is that
  of applying \<open>update\<close> to the items one after the other and dropping the failures, so
  the patches for identifiers that are present are applied and no record is created.
\<close>

theorem update_fails_updateBatch_skips:
  "(valid_key key \<longrightarrow> store_get s key = None \<longrightarrow> update cfg s key data = (Inl NotFound, s)) \<and>
   ((\<forall>u\<in>set updates. valid_key (get_prop u ''key'')) \<longrightarrow>
      updateBatch cfg s updates =
        (Inr (), fold (\<lambda>u w. snd (update cfg w (get_prop u ''key'') (rest_data u))) updates s) \<and>
      map fst (snd (updateBatch cfg s updates)) = map fst s)"
  by (simp add: update_absent updateBatch_def updateBatch_loop_fold commit_def fold_update_keys)

theorem update_fails_updateBatch_skips_witness:
  "valid_key (VNum (Fin 2)) \<and> store_get example_store (VNum (Fin 2)) = None \<and>
   update example_config example_store (VNum (Fin 2)) [''title'' \<mapsto> VStr ''x''] = (Inl NotFound, example_store) \<and>
   valid_key (get_prop [''key'' \<mapsto> VNum (Fin 2), ''title'' \<mapsto> VStr ''x''] ''key'') \<and>
   valid_key (get_prop [''key'' \<mapsto> VNum (Fin 1), ''title'' \<mapsto> VStr ''b''] ''key'') \<and>
   fst (updateBatch example_config example_store
          [[''key'' \<mapsto> VNum (Fin 2), ''title'' \<mapsto> VStr ''x''], [''key'' \<mapsto> VNum (Fin 1), ''title'' \<mapsto> VStr ''b'']]) = Inr () \<and>
   map (\<lambda>(k, r). (k, r ''title'', r ''vector''))
     (snd (updateBatch example_config example_store
          [[''key'' \<mapsto> VNum (Fin 2), ''title'' \<mapsto> VStr ''x''], [''key'' \<mapsto> VNum (Fin 1), ''title'' \<mapsto> VStr ''b'']]))
   = [(VNum (Fin 1), Some (VStr ''b''), Some (VArr [Fin 1, Fin 0]))]"
  using update_fails_updateBatch_skips
    [of "VNum (Fin 2)" example_store example_config "[''title'' \<mapsto> VStr ''x'']"
        "[[''key'' \<mapsto> VNum (Fin 2), ''title'' \<mapsto> VStr ''x''], [''key'' \<mapsto> VNum (Fin 1), ''title'' \<mapsto> VStr ''b'']]"]
  by (simp add: example_store_def example_record_def example_config_def store_get_def
        update_def get_prop_def store_put_def merge_update_def coalesce_def rest_data_def)

subsection \<open>The insert operations\<close>

lemma valid_key_not_nullish: "valid_key k \<Longrightarrow> \<not> nullish k"
  by (cases k) simp_all

lemma dense_record_id: "get_prop (dense_record cfg data) ''id'' = id_of data"
  by (simp add: dense_record_def get_prop_def id_of_def map_add_def split: option.splits)


lemma store_add_ok:
  "valid_key (get_prop r ''id'') \<Longrightarrow> store_get w (get_prop r ''id'') = None \<Longrightarrow>
   store_add r w = Completed (get_prop r ''id'') (store_put (get_prop r ''id'') r w)"
  by (simp add: store_add_def Let_def)


lemma binary_record_props:
  "get_prop ([''vector'' \<mapsto> p] ++ data) ''id'' = id_of data"
  "data ''vector'' = Some v \<Longrightarrow> ([''vector'' \<mapsto> p] ++ data) ''vector'' = Some v"
  by (simp_all add: get_prop_def id_of_def map_add_def split: option.splits)

lemma insertBinary_ok:
  assumes "valid_key (id_of data)" "store_get s (id_of data) = None"
    and "dense_operand (resolve_embedding cfg data) = Some xs"
  shows "insertBinary cfg s data =
         (Inr (id_of data),
          store_put (id_of data) ([''vector'' \<mapsto> VBigU64 (pack (binarizeVector xs None))] ++ data) s)"
proof -
  let ?r = "[''vector'' \<mapsto> VBigU64 (pack (binarizeVector xs None))] ++ data"
  have n: "\<not> nullish (get_prop data ''id'')"
    using assms(1) by (simp add: valid_key_not_nullish id_of_def)
  have "store_add ?r s = Completed (id_of data) (store_put (id_of data) ?r s)"
    using assms(1,2) store_add_ok [of ?r s] by (simp add: binary_record_props)
  then show ?thesis
    using n assms(3) by (simp add: insertBinary_def Let_def commit_def)
qed

text \<open>The loop adds the records of a prefix whose ids are valid, distinct and new.\<close>

lemma insertBatch_loop_prefix:
  assumes "\<forall>d\<in>set pre. valid_key (id_of d) \<and> store_get w (id_of d) = None"
    and "distinct (map id_of pre)"
  shows "insertBatch_loop cfg (pre @ rest) keys w =
         insertBatch_loop cfg rest (keys @ map id_of pre)
           (fold (\<lambda>d. store_put (id_of d) (dense_record cfg d)) pre w)"
  using assms
proof (induction pre arbitrary: keys w)
  case Nil
  show ?case by simp
next
  case (Cons d pre)
  let ?w = "store_put (id_of d) (dense_record cfg d) w"
  have v: "valid_key (id_of d)" and new: "store_get w (id_of d) = None"
    using Cons.prems(1) by simp_all
  have n: "\<not> nullish (get_prop d ''id'')" using v by (simp add: valid_key_not_nullish id_of_def)
  have add: "store_add (dense_record cfg d) w = Completed (id_of d) ?w"
    using v new store_add_ok [of "dense_record cfg d" w] by (simp add: dense_record_id)
  have "\<forall>d'\<in>set pre. valid_key (id_of d') \<and> store_get ?w (id_of d') = None"
  proof
    fix d' assume d': "d' \<in> set pre"
    have "id_of d \<notin> id_of ` set pre" using Cons.prems(2) by simp
    then have "id_of d' \<noteq> id_of d" using d' by (metis imageI)
    then show "valid_key (id_of d') \<and> store_get ?w (id_of d') = None"
      using d' Cons.prems(1) by (simp add: store_get_put)
  qed
  moreover have "distinct (map id_of pre)" using Cons.prems(2) by simp
  ultimately have "insertBatch_loop cfg (pre @ rest) (keys @ [id_of d]) ?w =
         insertBatch_loop cfg rest ((keys @ [id_of d]) @ map id_of pre)
           (fold (\<lambda>d. store_put (id_of d) (dense_record cfg d)) pre ?w)"
    by (rule Cons.IH)
  then show ?case
    using n add by (simp add: Let_def dense_record_def)
qed




lemma insertBatch_missing_id:
  assumes "\<forall>d\<in>set pre. valid_key (id_of d) \<and> store_get s (id_of d) = None"
    and "distinct (map id_of pre)" and "nullish (id_of d)"
  shows "insertBatch cfg s (pre @ d # post) =
         (Inl MissingIdentifier, fold (\<lambda>d. store_put (id_of d) (dense_record cfg d)) pre s)"
  using insertBatch_loop_prefix [OF assms(1,2), of cfg "d # post" "[]"] assms(3)
  by (simp add: insertBatch_def commit_def id_of_def)




text \<open>
  C2 on a batch of two records of which the second has no \<open>id\<close>: the call fails with
  \<open>MissingIdentifier\<close>, and the first record is in the store afterwards. The \<open>throw\<close>
  leaves the loop without aborting the transaction, which commits the \<open>add\<close> already made
  (\<open>insertBatch_missing_id\<close> is the general statement).
\<close>

theorem insertBatch_commits_before_missing_id:
  "fst (insertBatch example_config [] example_batch) = Inl MissingIdentifier \<and>
   map fst (snd (insertBatch example_config [] example_batch)) = [VNum (Fin 1)]"
  by (simp add: insertBatch_def commit_def store_add_def get_prop_def store_put_def
        store_get_def resolve_embedding_def example_batch_def example_config_def Let_def)


subsection \<open>The invariant of the store\<close>

text \<open>The empty store is well formed and every write operation keeps it so.\<close>

lemma valid_key_prop: "valid_key (get_prop r name) \<Longrightarrow> r name = Some (get_prop r name)"
  by (cases "r name") (simp_all add: get_prop_def)

lemma store_add_wf:
  assumes "wf_store w" "r ''vector'' \<noteq> None"
  shows "case store_add r w of
           Completed k w' \<Rightarrow> wf_store w'
         | Thrown e w' \<Rightarrow> wf_store w'
         | Aborted e \<Rightarrow> True"
  using assms by (simp add: store_add_def Let_def wf_store_put valid_key_prop)

lemma vector_present: "([''vector'' \<mapsto> e] ++ data) ''vector'' \<noteq> None"
  by (simp add: map_add_def split: option.splits)

lemma wf_commit:
  assumes "wf_store s"
    and "case out of Completed k w' \<Rightarrow> wf_store w' | Thrown e w' \<Rightarrow> wf_store w' | Aborted e \<Rightarrow> True"
  shows "wf_store (snd (commit s out))"
  using assms by (cases out) (simp_all add: commit_def)

lemma wf_empty: "wf_store []"
  by (simp add: wf_store_def)

lemma wf_insert_db: "wf_store s \<Longrightarrow> wf_store (snd (insert_db cfg s data))"
  by (simp add: insert_db_def Let_def wf_commit store_add_wf vector_present)

lemma wf_insertBinary: "wf_store s \<Longrightarrow> wf_store (snd (insertBinary cfg s data))"
  by (simp add: insertBinary_def Let_def wf_commit store_add_wf vector_present
        split: option.splits)

lemma wf_insertBatch_loop:
  "wf_store w \<Longrightarrow>
   (case insertBatch_loop cfg ds keys w of
      Completed k w' \<Rightarrow> wf_store w'
    | Thrown e w' \<Rightarrow> wf_store w'
    | Aborted e \<Rightarrow> True)"
proof (induction ds arbitrary: keys w)
  case Nil
  then show ?case by simp
next
  case (Cons d ds)
  let ?r = "[''vector'' \<mapsto> resolve_embedding cfg d] ++ d"
  have a: "case store_add ?r w of Completed k w' \<Rightarrow> wf_store w' | Thrown e w' \<Rightarrow> wf_store w'
           | Aborted e \<Rightarrow> True"
    using Cons.prems by (intro store_add_wf vector_present)
  show ?case
  proof (cases "store_add ?r w")
    case (Completed k w')
    then have "wf_store w'" using a by simp
    then show ?thesis using Completed Cons.IH [of w' "keys @ [k]"] Cons.prems
      by (simp add: Let_def)
  next
    case (Thrown e w')
    then show ?thesis using a Cons.prems by (simp add: Let_def)
  next
    case (Aborted e)
    then show ?thesis using Cons.prems by (simp add: Let_def)
  qed
qed

lemma wf_insertBatch: "wf_store s \<Longrightarrow> wf_store (snd (insertBatch cfg s ds))"
  by (simp add: insertBatch_def wf_commit wf_insertBatch_loop)

lemma merge_update_fields:
  "merge_update cfg existing key data ''id'' = Some key"
  "merge_update cfg existing key data ''vector'' \<noteq> None"
  by (simp_all add: merge_update_def Let_def)

lemma wf_update: "wf_store s \<Longrightarrow> wf_store (snd (update cfg s key data))"
  by (cases "store_get s key") (simp_all add: update_def wf_store_put merge_update_fields)

lemma wf_updateBatch_loop:
  "wf_store w \<Longrightarrow>
   (case updateBatch_loop cfg ups w of
      Completed k w' \<Rightarrow> wf_store w'
    | Thrown e w' \<Rightarrow> wf_store w'
    | Aborted e \<Rightarrow> True)"
proof (induction ups arbitrary: w)
  case Nil
  then show ?case by simp
next
  case (Cons u ups)
  show ?case
  proof (cases "store_get w (get_prop u ''key'')")
    case None
    then show ?thesis using Cons by (simp add: Let_def)
  next
    case (Some existing)
    show ?thesis
    proof (cases "valid_key (get_prop u ''key'')")
      case True
      then have "wf_store (store_put (get_prop u ''key'')
                   (merge_update cfg existing (get_prop u ''key'') (rest_data u)) w)"
        using Cons.prems by (simp add: wf_store_put merge_update_fields)
      then show ?thesis using Some True Cons.IH by (simp add: Let_def)
    next
      case False
      then show ?thesis using Cons.prems by (simp add: Let_def)
    qed
  qed
qed

lemma wf_updateBatch: "wf_store s \<Longrightarrow> wf_store (snd (updateBatch cfg s ups))"
  by (simp add: updateBatch_def wf_commit wf_updateBatch_loop)

lemma wf_insertManualVectors: "wf_store s \<Longrightarrow> wf_store (snd (insertManualVectors cfg s data))"
  by (simp add: insertManualVectors_def Let_def wf_commit store_add_wf vector_present)

lemma wf_insertManualBatch_loop:
  "wf_store w \<Longrightarrow>
   (case insertManualBatch_loop cfg ds keys w of
      Completed k w' \<Rightarrow> wf_store w'
    | Thrown e w' \<Rightarrow> wf_store w'
    | Aborted e \<Rightarrow> True)"
proof (induction ds arbitrary: keys w)
  case Nil
  then show ?case by simp
next
  case (Cons d ds)
  let ?r = "[''vector'' \<mapsto> get_prop d (vectorPath cfg)] ++ d"
  have a: "case store_add ?r w of Completed k w' \<Rightarrow> wf_store w' | Thrown e w' \<Rightarrow> wf_store w'
           | Aborted e \<Rightarrow> True"
    using Cons.prems by (intro store_add_wf vector_present)
  show ?case
  proof (cases "store_add ?r w")
    case (Completed k w')
    then have "wf_store w'" using a by simp
    then show ?thesis using Completed Cons.IH [of w' "keys @ [k]"] Cons.prems
      by (simp add: Let_def)
  next
    case (Thrown e w')
    then show ?thesis using a Cons.prems by (simp add: Let_def)
  next
    case (Aborted e)
    then show ?thesis using Cons.prems by (simp add: Let_def)
  qed
qed

lemma wf_insertManualBatch: "wf_store s \<Longrightarrow> wf_store (snd (insertManualBatch cfg s ds))"
  by (simp add: insertManualBatch_def wf_commit wf_insertManualBatch_loop)

lemma wf_store_delete: "wf_store s \<Longrightarrow> wf_store (store_delete key s)"
  by (auto simp add: wf_store_def store_delete_def distinct_map_filter)

lemma wf_delete_db: "wf_store s \<Longrightarrow> wf_store (snd (delete_db s key))"
  by (simp add: delete_db_def wf_store_delete)

lemma wf_deleteBatch_loop:
  "wf_store w \<Longrightarrow>
   (case deleteBatch_loop keys w of
      Completed k w' \<Rightarrow> wf_store w'
    | Thrown e w' \<Rightarrow> wf_store w'
    | Aborted e \<Rightarrow> True)"
  by (induction keys arbitrary: w) (simp_all add: wf_store_delete)

lemma wf_deleteBatch: "wf_store s \<Longrightarrow> wf_store (snd (deleteBatch s keys))"
  by (simp add: deleteBatch_def wf_commit wf_deleteBatch_loop)

subsection \<open>hasEmbedding and hasEmbeddings\<close>

lemma hasEmbedding_eq:
  "valid_key key \<Longrightarrow>
   hasEmbedding cfg s key =
   Inr (case store_get s key of
          None \<Rightarrow> False
        | Some r \<Rightarrow> nonempty_array (coalesce (get_prop r (vectorPath cfg)) (get_prop r ''vector'')))"
proof -
  have "nonempty_array v \<Longrightarrow> isArray v" for v by (cases v) simp_all
  then show "valid_key key \<Longrightarrow> ?thesis"
    by (auto simp add: hasEmbedding_def Let_def split: option.splits)
qed




lemma insertBinary_hasEmbedding_True:
  assumes "valid_key (id_of data)" "store_get s (id_of data) = None"
    and "dense_operand (resolve_embedding cfg data) = Some xs"
    and "nonempty_array (get_prop data (vectorPath cfg))"
  shows "hasEmbedding cfg (snd (insertBinary cfg s data)) (id_of data) = Inr True"
proof -
  let ?r = "[''vector'' \<mapsto> VBigU64 (pack (binarizeVector xs None))] ++ data"
  have "data (vectorPath cfg) \<noteq> None"
    using assms(4) by (cases "data (vectorPath cfg)") (simp_all add: get_prop_def)
  then have "get_prop ?r (vectorPath cfg) = get_prop data (vectorPath cfg)"
    by (auto simp add: get_prop_def map_add_def)
  moreover have "\<not> nullish (get_prop data (vectorPath cfg))"
    using assms(4) by (cases "get_prop data (vectorPath cfg)") simp_all
  ultimately have "nonempty_array (coalesce (get_prop ?r (vectorPath cfg)) (get_prop ?r ''vector''))"
    using assms(4) by (simp add: coalesce_def)
  then show ?thesis
    using assms(1)
    by (simp add: insertBinary_ok [OF assms(1,2,3)] hasEmbedding_eq store_get_put)
qed





section \<open>Properties of the QueryEngine\<close>





















section \<open>The two paths of the binary query\<close>

lemma sorted_wrt_replicate: "P x x \<Longrightarrow> sorted_wrt P (replicate n x)"
  by (induction n) simp_all

lemma binarize_wide:
  "binarizeVector example_wide_embedding None = replicate 128 0 @ replicate 128 1"
proof -
  let ?v = "replicate 128 (Fin 0) @ replicate 128 (Fin 1)"
  have s: "sorted_wrt jle ?v"
    by (simp add: sorted_wrt_append sorted_wrt_replicate jle_def)
  have n: "NaN \<notin> set ?v" by simp
  have a: "?v ! 127 = Fin 0" by (simp add: nth_append)
  have b: "?v ! 128 = Fin 1" by (simp add: nth_append)
  have m: "median_of_sorted ?v = Fin (1 / 2)"
    using a b by (simp add: median_of_sorted_def)
  show ?thesis
    unfolding example_wide_embedding_def
    using binarize_median [OF n refl s] by (simp add: m)
qed

lemma max64: "(18446744073709551615 :: 64 word) = - 1"
  by simp

lemma bytes_of_ones: "u64_bytes 18446744073709551615 = [255, 255, 255, 255, 255, 255, 255, 255]"
  by code_simp

lemma bytes_of_zero: "u64_bytes 0 = [0, 0, 0, 0, 0, 0, 0, 0]"
  by code_simp

lemma popcnt_ones: "i32_popcnt 4294967295 = 32"
  by code_simp

lemma lanes_of_ones: "i32x4_extract_lane 0 340282366920938463463374607431768211455 = 4294967295"
   "i32x4_extract_lane (Suc 0) 340282366920938463463374607431768211455 = 4294967295"
  "i32x4_extract_lane 2 340282366920938463463374607431768211455 = 4294967295"
   "i32x4_extract_lane 3 340282366920938463463374607431768211455 = 4294967295"
  by code_simp+

lemma le_word_ones: "(le_word [255, 255, 255, 255, 255, 255, 255, 255, 255, 255, 255, 255, 255, 255, 255, 255] :: 128 word) = 340282366920938463463374607431768211455"
  by code_simp

lemma wide_bytes: "buffer_bytes [0, 0, 18446744073709551615, 18446744073709551615] =
  [0,0,0,0,0,0,0,0, 0,0,0,0,0,0,0,0,
   255,255,255,255,255,255,255,255, 255,255,255,255,255,255,255,255]"
  by code_simp

lemma wide_scalar: "hammingDistance [0, 0, 18446744073709551615, 18446744073709551615]
   (VBigU64 [0, 0, 18446744073709551615, 18446744073709551615]) = Inr 0"
  by code_simp


lemma pack_wide:
  "pack (replicate 128 0 @ replicate 128 1) =
   [0, 0, 18446744073709551615, 18446744073709551615]"
proof (rule nth_equalityI)
  let ?b = "replicate 128 0 @ replicate 128 (1::nat)"
  show len: "length (pack ?b) = length [0, 0, 18446744073709551615, 18446744073709551615 :: 64 word]"
    by (simp add: pack_length)
  fix j assume "j < length (pack ?b)"
  then have j: "j < 4" by (simp add: pack_length)
  show "pack ?b ! j = [0, 0, 18446744073709551615, 18446744073709551615] ! j"
  proof (rule bit_word_eqI)
    fix k assume "k < LENGTH(64)"
    then have k: "k < 64" by simp
    have i: "64 * j + k < length ?b" using j k by simp
    have d: "(64 * j + k) div 64 = j" "(64 * j + k) mod 64 = k" using k by simp_all
    have "bit (pack ?b ! j) k \<longleftrightarrow> ?b ! (64 * j + k) = 1"
      using pack_bit [OF i] by (simp only: d)
    also have "\<dots> \<longleftrightarrow> 2 \<le> j" using j k by (auto simp add: nth_append)
    also have "\<dots> \<longleftrightarrow> bit ([0, 0, - 1, - 1 :: 64 word] ! j) k"
    proof -
      from j consider "j = 0" | "j = 1" | "j = 2" | "j = 3" by linarith
      then show ?thesis using k by cases simp_all
    qed
    finally show "bit (pack ?b ! j) k \<longleftrightarrow>
                  bit ([0, 0, 18446744073709551615, 18446744073709551615 :: 64 word] ! j) k"
      by (simp only: max64)
  qed
qed

lemma wide_load_0: "v128_load wide_mem 0 = 0"
  unfolding wide_mem_def by code_simp
lemma wide_load_16: "v128_load wide_mem 16 = 0"
  unfolding wide_mem_def by code_simp
lemma wide_load_32: "v128_load wide_mem 32 = 340282366920938463463374607431768211455"
  unfolding wide_mem_def by code_simp


lemma wide_packed:
  "pack (binarizeVector example_wide_embedding None) =
   [0, 0, 18446744073709551615, 18446744073709551615]"
  by (simp only: binarize_wide pack_wide)

lemma wide_query_packed:
  "pack (binarizeVector (embed example_wide_config text) None) =
   [0, 0, 18446744073709551615, 18446744073709551615]"
  by (simp add: example_wide_config_def wide_packed)

lemma wide_insert:
  "insertBinary example_wide_config [] example_wide_input =
   (Inr (VNum (Fin 1)),
    [(VNum (Fin 1),
      [''vector'' \<mapsto> VBigU64 [0, 0, 18446744073709551615, 18446744073709551615]] ++
      example_wide_input)])"
proof -
  have i: "id_of example_wide_input = VNum (Fin 1)"
    by (simp add: id_of_def example_wide_input_def get_prop_def)
  have e: "resolve_embedding example_wide_config example_wide_input = VArr example_wide_embedding"
    by (simp add: resolve_embedding_def example_wide_config_def example_wide_input_def get_prop_def)
  show ?thesis
    using insertBinary_ok [of example_wide_input "[]" example_wide_config example_wide_embedding]
    by (simp add: i e store_get_def store_put_def wide_packed)
qed

lemma wide_vectors:
  "map (\<lambda>entry. get_prop entry ''vector'') (getAll example_wide_store) =
   [VBigU64 [0, 0, 18446744073709551615, 18446744073709551615]]"
  unfolding example_wide_store_def wide_insert
  by (simp add: getAll_def get_prop_def example_wide_input_def map_add_def)

lemma wide_simd:
  "simd_scores [0, 0, 18446744073709551615, 18446744073709551615]
     [VBigU64 [0, 0, 18446744073709551615, 18446744073709551615]] = Inr [128]"
proof -
  have "hamming_distance_loop wide_mem 0 16 32 0 = hamming_distance_loop wide_mem 16 32 16 0"
    by (subst loop_step) (simp_all add: mem_size_def wide_load_0 wide_load_16 popcnt_lane_0)
  also have "\<dots> = hamming_distance_loop wide_mem 32 48 0 128"
    by (subst loop_step) (simp_all add: mem_size_def wide_load_32 wide_load_16 lanes_of_ones popcnt_ones)
  also have "\<dots> = Some 128" by (rule loop_done)
  finally have k: "hamming_distance wide_mem 0 16 32 = Some 128"
    by (simp add: hamming_distance_def)
  have len: "length (buffer_bytes [0, 0, 18446744073709551615, 18446744073709551615]) = 32"
    by (simp add: wide_bytes)
  show ?thesis
    by (simp add: simd_scores_def memory_set_def len mem_size_def wide_mem_def [symmetric] k)
qed

text \<open>
  C1 on a store that \<open>insertBinary\<close> filled with one record, queried with the text of that
  record, so that the packed query and the packed record are the same four words: the
  scalar path of \<open>queryBinary\<close> gives the distance \<open>0\<close>, the WebAssembly path of
  \<open>queryBinarySIMD\<close> gives \<open>128\<close>. The record's bytes are written at offset \<open>16\<close>, over the
  third and fourth word of the query at offset \<open>0\<close>, and the kernel compares the record's
  first two words with its last two.
\<close>

theorem simd_path_differs_from_scalar:
  "fst (insertBinary example_wide_config [] example_wide_input) = Inr (VNum (Fin 1)) \<and>
   map_sum id (map (\<lambda>r. r ''distance''))
     (queryBinary example_wide_config example_wide_store (VStr ''a'') None) =
     Inr [Some (VNum (Fin 0))] \<and>
   map_sum id (map (\<lambda>r. r ''distance''))
     (queryBinarySIMD example_wide_config example_wide_store (VStr ''a'') None) =
     Inr [Some (VNum (Fin 128))]"
proof (intro conjI)
  show "fst (insertBinary example_wide_config [] example_wide_input) = Inr (VNum (Fin 1))"
    by (simp add: wide_insert)
  have g: "getAll example_wide_store =
           [[''vector'' \<mapsto> VBigU64 [0, 0, 18446744073709551615, 18446744073709551615]] ++
            example_wide_input]"
    by (simp add: example_wide_store_def wide_insert getAll_def)
  have v: "get_prop ([''vector'' \<mapsto> VBigU64 [0, 0, 18446744073709551615, 18446744073709551615]] ++
                      example_wide_input) ''vector'' =
           VBigU64 [0, 0, 18446744073709551615, 18446744073709551615]"
    by (simp add: get_prop_def example_wide_input_def map_add_def)
  show "map_sum id (map (\<lambda>r. r ''distance''))
     (queryBinary example_wide_config example_wide_store (VStr ''a'') None) =
     Inr [Some (VNum (Fin 0))]"
    by (simp add: queryBinary_def Let_def wide_query_packed g v wide_scalar slice0_def limit_of_def)
  show "map_sum id (map (\<lambda>r. r ''distance''))
     (queryBinarySIMD example_wide_config example_wide_store (VStr ''a'') None) =
     Inr [Some (VNum (Fin 128))]"
    by (simp add: queryBinarySIMD_def Let_def wide_query_packed g v wide_simd slice0_def limit_of_def)
qed

end
